theory Spec2Isabelle
  imports Complex_Main "HOL-Library.Sublist" "HOL-Library.AList" "HOL-Library.Char_ord"
    "HOL-Library.List_Lexorder"
begin

text \<open>
  A model of the backup script \<^verbatim>\<open>src/index.ts\<close> (the script that begins with
  \<^verbatim>\<open>import "dotenv/config"\<close>): the polling loop and the download of
  \<^verbatim>\<open>exportFromNotion\<close>, the archive normalizer \<^verbatim>\<open>extractZip\<close>, and \<^verbatim>\<open>run\<close>.
  The service, the network and the archive library are inputs of the model: the replies
  of the service are given as a list, the body of the download as a list of stream
  events, and the reading of zip archives as a function.
\<close>

section \<open>String helpers of the JavaScript runtime\<close>

text \<open>
  \<^verbatim>\<open>s.includes(sub)\<close> and \<^verbatim>\<open>s.startsWith(p)\<close> on strings, and the truthiness
  test JavaScript applies to an optional string (\<^verbatim>\<open>undefined\<close> and \<^verbatim>\<open>""\<close> are falsy)
  and to an optional number (\<^verbatim>\<open>undefined\<close> and \<^verbatim>\<open>0\<close> are falsy).
\<close>

definition includes_str :: "string \<Rightarrow> string \<Rightarrow> bool" where
  "includes_str s sub = sublist sub s"

definition startsWith :: "string \<Rightarrow> string \<Rightarrow> bool" where
  "startsWith s p = prefix p s"

fun truthy :: "string option \<Rightarrow> bool" where
  "truthy None = False"
| "truthy (Some s) = (s \<noteq> [])"

fun truthyNum :: "nat option \<Rightarrow> bool" where
  "truthyNum None = False"
| "truthyNum (Some n) = (n \<noteq> 0)"

section \<open>The export job driver: \<^verbatim>\<open>exportFromNotion\<close>, polling phase\<close>

subsection \<open>Data\<close>

text \<open>
  \<^verbatim>\<open>type NotionTask = { id; state; status: { pagesExported; exportURL }; error? }\<close>.
  The source tests \<^verbatim>\<open>task.status\<close>, \<^verbatim>\<open>task.status.exportURL\<close>,
  \<^verbatim>\<open>task.status.pagesExported\<close> and \<^verbatim>\<open>task.error\<close> for truthiness, so each of
  them may be missing from the reply.
\<close>

record task_status =
  pagesExported :: "nat option"
  exportURL :: "string option"

record NotionTask =
  task_id :: string
  state :: string
  status :: "task_status option"
  error :: "string option"

text \<open>
  What \<^verbatim>\<open>await client.post("getTasks", ...)\<close> produces: a reply carrying
  \<^verbatim>\<open>data.results\<close> and \<^verbatim>\<open>headers["set-cookie"]\<close> (typed \<^verbatim>\<open>NotionTask[]\<close> and
  \<^verbatim>\<open>string[]\<close> in the source), or a rejection with an axios error that may carry the
  status of an HTTP response.
\<close>

datatype response =
  Reply "NotionTask list" "string list"
| AxiosError "nat option"

text \<open>One constructor for each \<^verbatim>\<open>throw\<close> of the polling phase.\<close>

datatype exn =
  ExportFailed string
| ExportURLMissing
| FileTokenMissing
| Rethrown "nat option"
| TimedOut nat rat

text \<open>The error taxonomy of the specification, and the class of each thrown error.\<close>

datatype error_kind = ProtocolError | RemoteFailure | Timeout

fun kind :: "exn \<Rightarrow> error_kind" where
  "kind (ExportFailed r) = RemoteFailure"
| "kind ExportURLMissing = ProtocolError"
| "kind FileTokenMissing = ProtocolError"
| "kind (Rethrown s) = ProtocolError"
| "kind (TimedOut n m) = Timeout"

text \<open>The lines written to the console by the polling phase, with their interpolated values.\<close>

datatype log =
  LogNotFound nat nat
| LogState nat nat string
| LogProgress nat
| LogTaskObject NotionTask
| LogFinished "nat option"
| LogRateLimited nat

text \<open>
  The variables of the polling phase: the two counters, the two results, the seconds
  spent in \<^verbatim>\<open>sleep\<close> so far, and the console output.
\<close>

record poll_state =
  pollAttempts :: nat
  rateLimitRetries :: nat
  exportURLvar :: "string option"
  fileTokenCookie :: "string option"
  slept :: nat
  console :: "log list"

definition POLL_INTERVAL :: nat where
  "POLL_INTERVAL = 3"

definition MAX_POLL_ATTEMPTS :: nat where
  "MAX_POLL_ATTEMPTS = 100"

definition initial :: poll_state where
  "initial = \<lparr>pollAttempts = 0, rateLimitRetries = 0, exportURLvar = None,
     fileTokenCookie = None, slept = 0, console = []\<rparr>"

subsection \<open>One iteration of the loop\<close>

definition say :: "log \<Rightarrow> poll_state \<Rightarrow> poll_state" where
  "say l st = st\<lparr>console := console st @ [l]\<rparr>"

text \<open>
  The head of an iteration: \<^verbatim>\<open>pollAttempts++\<close> and
  \<^verbatim>\<open>await sleep(POLL_INTERVAL + 2 ** rateLimitRetries)\<close>.
\<close>

definition enter :: "poll_state \<Rightarrow> poll_state" where
  "enter st = st\<lparr>pollAttempts := pollAttempts st + 1,
     slept := slept st + (POLL_INTERVAL + 2 ^ rateLimitRetries st)\<rparr>"

datatype step = Continue poll_state | Break poll_state | Throw exn poll_state

text \<open>
  The \<^verbatim>\<open>try\<close> block once the reply is there, from \<^verbatim>\<open>tasks.find\<close> on. The
  statements are in the order of the source; \<^verbatim>\<open>rateLimitRetries = 0\<close> is the last
  statement of the block, reached only when nothing before it left the iteration.
\<close>

definition onSuccess :: "NotionTask \<Rightarrow> string list \<Rightarrow> poll_state \<Rightarrow> step" where
  "onSuccess task getTasksRequestCookies st =
     (case status task of
        None \<Rightarrow> Throw ExportURLMissing (say (LogTaskObject task) st)
      | Some s \<Rightarrow>
          if \<not> truthy (exportURL s) then Throw ExportURLMissing (say (LogTaskObject task) st)
          else
            let st1 = st\<lparr>exportURLvar := exportURL s\<rparr>;
                st2 = st1\<lparr>fileTokenCookie :=
                        find (\<lambda>cookie. includes_str cookie ''file_token='')
                          getTasksRequestCookies\<rparr>
            in if \<not> truthy (fileTokenCookie st2) then Throw FileTokenMissing st2
               else Break (say (LogFinished
                      (if truthyNum (pagesExported s) then pagesExported s else None)) st2))"

definition showProgress :: "NotionTask \<Rightarrow> poll_state \<Rightarrow> poll_state" where
  "showProgress task st =
     (case status task of
        None \<Rightarrow> st
      | Some s \<Rightarrow> (case pagesExported s of
                    None \<Rightarrow> st
                  | Some n \<Rightarrow> if n \<noteq> 0 then say (LogProgress n) st else st))"

definition onReply :: "string \<Rightarrow> NotionTask list \<Rightarrow> string list \<Rightarrow> poll_state \<Rightarrow> step" where
  "onReply taskId tasks getTasksRequestCookies st =
     (case find (\<lambda>t. task_id t = taskId) tasks of
        None \<Rightarrow> Continue (say (LogNotFound (pollAttempts st) MAX_POLL_ATTEMPTS) st)
      | Some task \<Rightarrow>
          let st1 = say (LogState (pollAttempts st) MAX_POLL_ATTEMPTS (state task)) st;
              st2 = showProgress task st1
          in if truthy (error task)
             then Throw (ExportFailed (case error task of None \<Rightarrow> [] | Some reason \<Rightarrow> reason)) st2
             else if state task = ''success'' then onSuccess task getTasksRequestCookies st2
             else Continue (st2\<lparr>rateLimitRetries := 0\<rparr>))"

text \<open>
  The \<^verbatim>\<open>catch\<close> block: an axios error whose response has status 429 backs off and
  gives the attempt back; every other error is thrown again. The errors thrown inside the
  \<^verbatim>\<open>try\<close> block are plain \<^verbatim>\<open>Error\<close>s, not axios errors, so the \<^verbatim>\<open>catch\<close>
  block throws them again unchanged: \<open>onReply\<close> already returns them as \<open>Throw\<close>.
\<close>

definition onCatch :: "nat option \<Rightarrow> poll_state \<Rightarrow> step" where
  "onCatch httpStatus st =
     (if httpStatus = Some 429
      then Continue ((say (LogRateLimited (2 ^ rateLimitRetries st)) st)
             \<lparr>rateLimitRetries := rateLimitRetries st + 1, pollAttempts := pollAttempts st - 1\<rparr>)
      else Throw (Rethrown httpStatus) st)"

fun pollStep :: "string \<Rightarrow> poll_state \<Rightarrow> response \<Rightarrow> step" where
  "pollStep taskId st (Reply tasks cookies) = onReply taskId tasks cookies st"
| "pollStep taskId st (AxiosError httpStatus) = onCatch httpStatus st"

subsection \<open>The loop and the check after it\<close>

text \<open>
  The loop runs against the replies of the service, in the order of the requests. Each
  iteration that passes the loop condition sleeps and consumes one reply; when the
  replies given are used up the driver is \<open>Awaiting\<close> the next one. The loop is left by
  an exception, by \<^verbatim>\<open>break\<close> or by its condition; the last two reach the check after
  the loop.
\<close>

datatype loop_exit = Thrown exn | Exited | Awaiting

fun pollLoop :: "string \<Rightarrow> poll_state \<Rightarrow> response list \<Rightarrow> loop_exit \<times> poll_state" where
  "pollLoop taskId st [] =
     (if pollAttempts st < MAX_POLL_ATTEMPTS then (Awaiting, enter st) else (Exited, st))"
| "pollLoop taskId st (r # rs) =
     (if pollAttempts st < MAX_POLL_ATTEMPTS
      then (case pollStep taskId (enter st) r of
              Continue st' \<Rightarrow> pollLoop taskId st' rs
            | Break st' \<Rightarrow> (Exited, st')
            | Throw e st' \<Rightarrow> (Thrown e, st'))
      else (Exited, st))"

text \<open>
  The outcome of the polling phase: an exception, the download reference and the cookie
  handed to the download request, or still waiting for a reply.
\<close>

datatype outcome = Raised exn | Obtained "string option" "string option" | Pending

definition afterLoop :: "loop_exit \<times> poll_state \<Rightarrow> outcome \<times> poll_state" where
  "afterLoop x =
     (case x of
        (Thrown e, st) \<Rightarrow> (Raised e, st)
      | (Awaiting, st) \<Rightarrow> (Pending, st)
      | (Exited, st) \<Rightarrow>
          if pollAttempts st \<ge> MAX_POLL_ATTEMPTS
          then (Raised (TimedOut MAX_POLL_ATTEMPTS
                  (of_nat (MAX_POLL_ATTEMPTS * POLL_INTERVAL) / 60)), st)
          else (Obtained (exportURLvar st) (fileTokenCookie st), st))"

definition pollPhase :: "string \<Rightarrow> poll_state \<Rightarrow> response list \<Rightarrow> outcome \<times> poll_state" where
  "pollPhase taskId st rs = afterLoop (pollLoop taskId st rs)"

subsection \<open>Replies that keep the loop going, and sample replies\<close>

text \<open>
  The replies after which the source goes on polling: a rate-limited request, a reply that
  has no record of the job, and a record with no error whose state is not
  \<^verbatim>\<open>"success"\<close>.
\<close>

fun keepsPolling :: "string \<Rightarrow> response \<Rightarrow> bool" where
  "keepsPolling taskId (AxiosError httpStatus) = (httpStatus = Some 429)"
| "keepsPolling taskId (Reply tasks cookies) =
     (case find (\<lambda>t. task_id t = taskId) tasks of
        None \<Rightarrow> True
      | Some task \<Rightarrow> \<not> truthy (error task) \<and> state task \<noteq> ''success'')"

definition rateLimited :: "response \<Rightarrow> bool" where
  "rateLimited r = (r = AxiosError (Some 429))"

definition inProgressReply :: "string \<Rightarrow> response" where
  "inProgressReply t =
     Reply [\<lparr>task_id = t, state = ''in_progress'',
             status = Some \<lparr>pagesExported = Some 3, exportURL = None\<rparr>, error = None\<rparr>] []"

definition successReply :: "string \<Rightarrow> response" where
  "successReply t =
     Reply [\<lparr>task_id = t, state = ''success'',
             status = Some \<lparr>pagesExported = Some 3, exportURL = Some ''https://x/y.zip''\<rparr>,
             error = None\<rparr>]
           [''a=b'', ''file_token=abc; Path=/'']"

definition failedSuccessReply :: "string \<Rightarrow> response" where
  "failedSuccessReply t =
     Reply [\<lparr>task_id = t, state = ''success'',
             status = Some \<lparr>pagesExported = Some 3, exportURL = Some ''https://x/y.zip''\<rparr>,
             error = Some ''quota''\<rparr>]
           [''file_token=abc; Path=/'']"

section \<open>The download: the end of \<^verbatim>\<open>exportFromNotion\<close>\<close>

text \<open>
  The GET request is rejected with an axios error, or it is answered with a declared
  \<^verbatim>\<open>content-length\<close> and a body stream. The stream delivers chunks and then either
  emits \<^verbatim>\<open>end\<close> or is torn down without it; a trace that just stops stands for a
  stream on which nothing more happens.
\<close>

datatype stream_event = Chunk string | End | Aborted

datatype get = GetRejected "nat option" | GetResponse nat "stream_event list"

datatype settled = Resolved | Rejected | Unsettled

text \<open>
  \<^verbatim>\<open>response.data.pipe(createWriteStream(destination))\<close> followed by the promise that
  resolves on \<^verbatim>\<open>close\<close> and rejects on \<^verbatim>\<open>error\<close> of the write stream; these two are
  the only listeners the source installs. \<^verbatim>\<open>pipe\<close> writes each chunk to the
  destination and ends the destination when the source emits \<^verbatim>\<open>end\<close>, after which the
  file stream closes; it does not close the destination when the source fails.
  \<open>failsAfter\<close> is the number of chunks the write stream takes before it emits
  \<^verbatim>\<open>error\<close> (\<open>Some 0\<close>: the file cannot be opened; \<open>None\<close>: it never fails). The
  second component is what has been written to the file.
\<close>

fun pipe :: "stream_event list \<Rightarrow> nat option \<Rightarrow> string \<Rightarrow> settled \<times> string" where
  "pipe evs (Some 0) written = (Rejected, written)"
| "pipe [] failsAfter written = (Unsettled, written)"
| "pipe (Chunk c # evs) failsAfter written =
     pipe evs (map_option (\<lambda>k. k - 1) failsAfter) (written @ c)"
| "pipe (End # evs) failsAfter written = (Resolved, written)"
| "pipe (Aborted # evs) failsAfter written = (Unsettled, written)"

text \<open>The bytes a body stream delivers before it finishes.\<close>

fun received :: "stream_event list \<Rightarrow> nat" where
  "received [] = 0"
| "received (Chunk c # evs) = length c + received evs"
| "received (End # evs) = 0"
| "received (Aborted # evs) = 0"

text \<open>The chunks a body stream delivers before it finishes.\<close>

fun leading :: "stream_event list \<Rightarrow> nat" where
  "leading [] = 0"
| "leading (Chunk c # evs) = Suc (leading evs)"
| "leading (End # evs) = 0"
| "leading (Aborted # evs) = 0"

text \<open>
  Whether a body stream emits \<^verbatim>\<open>end\<close>, and the chunks it delivers before it
  finishes.
\<close>

fun ends :: "stream_event list \<Rightarrow> bool" where
  "ends [] = False"
| "ends (Chunk c # evs) = ends evs"
| "ends (End # evs) = True"
| "ends (Aborted # evs) = False"

fun body :: "stream_event list \<Rightarrow> string list" where
  "body [] = []"
| "body (Chunk c # evs) = c # body evs"
| "body (End # evs) = []"
| "body (Aborted # evs) = []"

datatype download_outcome =
  GetFailed "nat option"
| Downloaded settled string nat

text \<open>
  Lines 307 to 321: the request, the line \<^verbatim>\<open>Downloading ...mb\<close> computed from the
  declared size (kept here as the third component), the pipe and the promise.
\<close>

fun download :: "get \<Rightarrow> nat option \<Rightarrow> download_outcome" where
  "download (GetRejected httpStatus) failsAfter = GetFailed httpStatus"
| "download (GetResponse contentLength evs) failsAfter =
     (case pipe evs failsAfter [] of (s, written) \<Rightarrow> Downloaded s written contentLength)"

section \<open>The archive normalizer: \<^verbatim>\<open>extractZip\<close>\<close>

subsection \<open>Files, directories and archives\<close>

text \<open>
  A directory maps names to files and directories, kept in the order in which the
  names were created; \<^verbatim>\<open>readdir\<close> lists the names sorted. A file holds bytes.
  Reading a file as a zip archive is a
  parameter \<open>unzip\<close> of the model: it yields the entries (name and data) of a valid
  archive, and nothing for bytes that are not one.
\<close>

datatype node = File string | Dir "(string \<times> node) list"

type_synonym dir = "(string \<times> node) list"

type_synonym path = "string list"

type_synonym entries = "(string \<times> string) list"

type_synonym unzipper = "string \<Rightarrow> entries option"

datatype fs_error = InvalidZip | FileInTheWay | ENOENT | EISDIR | ENOTDIR | ENOTEMPTY

text \<open>
  An entry name is a relative path with \<^verbatim>\<open>/\<close> between its segments; a name that ends
  in \<^verbatim>\<open>/\<close> is a directory entry. Empty segments and \<^verbatim>\<open>.\<close> drop out when the name
  is joined to the destination. Segments \<^verbatim>\<open>..\<close> and backslashes are not interpreted.
\<close>

fun splitOn :: "char \<Rightarrow> string \<Rightarrow> string list" where
  "splitOn c [] = [[]]"
| "splitOn c (x # xs) =
     (if x = c then [] # splitOn c xs
      else (case splitOn c xs of [] \<Rightarrow> [[x]] | w # ws \<Rightarrow> (x # w) # ws))"

definition segments :: "string \<Rightarrow> path" where
  "segments name = filter (\<lambda>s. s \<noteq> [] \<and> s \<noteq> ''.'') (splitOn CHR ''/'' name)"

definition isDirectory :: "string \<Rightarrow> bool" where
  "isDirectory name = (name \<noteq> [] \<and> last name = CHR ''/'')"

fun lookup :: "dir \<Rightarrow> path \<Rightarrow> node option" where
  "lookup d [] = Some (Dir d)"
| "lookup d [n] = map_of d n"
| "lookup d (n # p) = (case map_of d n of Some (Dir d') \<Rightarrow> lookup d' p | _ \<Rightarrow> None)"

definition readdir :: "dir \<Rightarrow> string list" where
  "readdir d = sort (map fst d)"

subsection \<open>\<^verbatim>\<open>extractAllTo(destination, true)\<close> of the archive library\<close>

text \<open>
  A directory entry creates the directory and its parents and fails when a file is in
  the way. A file entry creates the parents likewise, failing with \<^verbatim>\<open>ENOTDIR\<close> when one
  of them is a file, and writes the file, replacing a file of that name; where a
  directory has that name the entry is skipped. The first failure ends the extraction.
\<close>

fun makeDir :: "path \<Rightarrow> dir \<Rightarrow> fs_error + dir" where
  "makeDir [] d = Inr d"
| "makeDir (n # p) d =
     (case map_of d n of
        Some (File c) \<Rightarrow> Inl FileInTheWay
      | Some (Dir d') \<Rightarrow>
          (case makeDir p d' of Inl e \<Rightarrow> Inl e | Inr d'' \<Rightarrow> Inr (AList.update n (Dir d'') d))
      | None \<Rightarrow>
          (case makeDir p [] of Inl e \<Rightarrow> Inl e | Inr d'' \<Rightarrow> Inr (AList.update n (Dir d'') d)))"

fun writeFileTo :: "path \<Rightarrow> string \<Rightarrow> dir \<Rightarrow> fs_error + dir" where
  "writeFileTo [] content d = Inr d"
| "writeFileTo [n] content d =
     (case map_of d n of
        Some (Dir d') \<Rightarrow> Inr d
      | _ \<Rightarrow> Inr (AList.update n (File content) d))"
| "writeFileTo (n # p) content d =
     (case map_of d n of
        Some (File c) \<Rightarrow> Inl ENOTDIR
      | Some (Dir d') \<Rightarrow>
          (case writeFileTo p content d' of
             Inl e \<Rightarrow> Inl e | Inr d'' \<Rightarrow> Inr (AList.update n (Dir d'') d))
      | None \<Rightarrow>
          (case writeFileTo p content [] of
             Inl e \<Rightarrow> Inl e | Inr d'' \<Rightarrow> Inr (AList.update n (Dir d'') d)))"

definition extractEntry :: "string \<times> string \<Rightarrow> dir \<Rightarrow> fs_error + dir" where
  "extractEntry entry d =
     (if isDirectory (fst entry) then makeDir (segments (fst entry)) d
      else writeFileTo (segments (fst entry)) (snd entry) d)"

fun extractAllTo :: "entries \<Rightarrow> dir \<Rightarrow> fs_error option \<times> dir" where
  "extractAllTo [] d = (None, d)"
| "extractAllTo (entry # es) d =
     (case extractEntry entry d of
        Inl e \<Rightarrow> (Some e, d)
      | Inr d' \<Rightarrow> extractAllTo es d')"

subsection \<open>The file system calls\<close>

fun unlink :: "path \<Rightarrow> dir \<Rightarrow> fs_error + dir" where
  "unlink [] d = Inl EISDIR"
| "unlink [n] d =
     (case map_of d n of
        None \<Rightarrow> Inl ENOENT
      | Some (Dir d') \<Rightarrow> Inl EISDIR
      | Some (File c) \<Rightarrow> Inr (AList.delete n d))"
| "unlink (n # p) d =
     (case map_of d n of
        None \<Rightarrow> Inl ENOENT
      | Some (File c) \<Rightarrow> Inl ENOTDIR
      | Some (Dir d') \<Rightarrow>
          (case unlink p d' of Inl e \<Rightarrow> Inl e | Inr d'' \<Rightarrow> Inr (AList.update n (Dir d'') d)))"

text \<open>
  \<^verbatim>\<open>rename\<close> onto an existing name: a file replaces a file, a directory replaces an
  empty directory, every other combination fails.
\<close>

fun renameOnto :: "node \<Rightarrow> node option \<Rightarrow> fs_error option" where
  "renameOnto src None = None"
| "renameOnto (File c) (Some (File c')) = None"
| "renameOnto (File c) (Some (Dir d')) = Some EISDIR"
| "renameOnto (Dir d) (Some (File c')) = Some ENOTDIR"
| "renameOnto (Dir d) (Some (Dir d')) = (if d' = [] then None else Some ENOTEMPTY)"

definition rmdir :: "string \<Rightarrow> dir \<Rightarrow> fs_error option \<times> dir" where
  "rmdir name d =
     (case map_of d name of
        None \<Rightarrow> (Some ENOENT, d)
      | Some (File c) \<Rightarrow> (Some ENOTDIR, d)
      | Some (Dir d') \<Rightarrow> if d' = [] then (None, AList.delete name d) else (Some ENOTEMPTY, d))"

subsection \<open>\<^verbatim>\<open>Promise.all(xs.map(async ...))\<close>\<close>

text \<open>
  Every callback is started, whether or not an earlier one failed, and the promise
  rejects with the first failure. The callbacks take effect one after the other, in the
  order of the list.
\<close>

fun firstError :: "fs_error option \<Rightarrow> fs_error option \<Rightarrow> fs_error option" where
  "firstError None e = e"
| "firstError (Some e) e' = Some e"

fun promiseAll ::
  "('a \<Rightarrow> dir \<Rightarrow> fs_error option \<times> dir) \<Rightarrow> 'a list \<Rightarrow> dir \<Rightarrow> fs_error option \<times> dir" where
  "promiseAll f [] d = (None, d)"
| "promiseAll f (x # xs) d =
     (case f x d of (e, d1) \<Rightarrow>
        (case promiseAll f xs d1 of (e', d2) \<Rightarrow> (firstError e e', d2)))"

subsection \<open>The two naming conventions\<close>

definition isDigit :: "char \<Rightarrow> bool" where
  "isDigit c = (c \<in> set ''0123456789'')"

text \<open>
  \<^verbatim>\<open>name.match(/Part-\d+\.zip/)\<close>: the pattern is tried at every position of the
  name. At one position it takes \<^verbatim>\<open>Part-\<close>, then as many digits as there are, at
  least one, then \<^verbatim>\<open>.zip\<close>.
\<close>

definition matchHere :: "string \<Rightarrow> bool" where
  "matchHere s =
     (prefix ''Part-'' s \<and> takeWhile isDigit (drop 5 s) \<noteq> [] \<and>
      prefix ''.zip'' (dropWhile isDigit (drop 5 s)))"

fun isPartFile :: "string \<Rightarrow> bool" where
  "isPartFile [] = False"
| "isPartFile (c # cs) = (matchHere (c # cs) \<or> isPartFile cs)"

definition isExportFolder :: "string \<Rightarrow> bool" where
  "isExportFolder name = startsWith name ''Export-''"

subsection \<open>\<^verbatim>\<open>extractZip\<close>\<close>

text \<open>
  The callback of the first \<^verbatim>\<open>Promise.all\<close> has a synchronous part and an
  asynchronous one. The synchronous part opens the file at
  \<^verbatim>\<open>join(destination, partFile)\<close> as an archive and extracts it into the
  destination.
\<close>

definition readFile :: "path \<Rightarrow> dir \<Rightarrow> fs_error + string" where
  "readFile p d =
     (case lookup d p of
        None \<Rightarrow> Inl ENOENT
      | Some (Dir d') \<Rightarrow> Inl EISDIR
      | Some (File bytes) \<Rightarrow> Inr bytes)"

definition openPart :: "unzipper \<Rightarrow> string \<Rightarrow> dir \<Rightarrow> fs_error option \<times> dir" where
  "openPart unzip partFile d =
     (case readFile (segments partFile) d of
        Inl e \<Rightarrow> (Some e, d)
      | Inr bytes \<Rightarrow>
          (case unzip bytes of
             None \<Rightarrow> (Some InvalidZip, d)
           | Some es \<Rightarrow> extractAllTo es d))"

text \<open>
  When the synchronous part is through, the callback calls \<^verbatim>\<open>fs.unlink\<close> and
  awaits it: the unlink is started, and \<^verbatim>\<open>map\<close> goes on to the callback of the next
  part while it is under way. \<open>lag\<close> says, for each part, how many of the following
  callbacks run their synchronous part before its unlink takes effect: with lag \<open>0\<close>
  the file is gone before the next part is opened. The unlinks under way are kept with
  what is left of their lag, in the order in which they were started. An unlink that
  takes effect during the extraction of a later part is taken at its beginning or end.
\<close>

type_synonym pending = "(nat \<times> path) list"

fun unlinkNow :: "path \<Rightarrow> fs_error option \<times> dir \<Rightarrow> fs_error option \<times> dir" where
  "unlinkNow p (unlinkErr, d) =
     (case unlink p d of
        Inl e \<Rightarrow> (firstError unlinkErr (Some e), d)
      | Inr d' \<Rightarrow> (unlinkErr, d'))"

fun settle :: "pending \<Rightarrow> fs_error option \<times> dir \<Rightarrow> pending \<times> (fs_error option \<times> dir)" where
  "settle [] s = ([], s)"
| "settle ((k, p) # waiting) s =
     (if k = 0 then settle waiting (unlinkNow p s)
      else (case settle waiting s of (waiting', s') \<Rightarrow> ((k - 1, p) # waiting', s')))"

fun finish :: "pending \<Rightarrow> fs_error option \<times> dir \<Rightarrow> fs_error option \<times> dir" where
  "finish [] s = s"
| "finish ((k, p) # waiting) s = finish waiting (unlinkNow p s)"

text \<open>
  The first \<^verbatim>\<open>Promise.all\<close>. Every callback is started, whether or not an earlier
  one failed. A callback whose synchronous part throws gives a promise that is rejected
  at once, and it starts no unlink; a failed unlink rejects its promise later. So the
  error reported is that of the first part whose synchronous part failed, and, when
  there is none, that of the first unlink that failed. All unlinks that were started
  take effect.
\<close>

fun extractParts ::
  "(string \<Rightarrow> nat) \<Rightarrow> unzipper \<Rightarrow> string list \<Rightarrow> pending \<Rightarrow> fs_error option \<Rightarrow>
     fs_error option \<times> dir \<Rightarrow> fs_error option \<times> dir" where
  "extractParts lag unzip [] waiting syncErr s =
     (case finish waiting s of (unlinkErr, d) \<Rightarrow> (firstError syncErr unlinkErr, d))"
| "extractParts lag unzip (partFile # rest) waiting syncErr s =
     (case settle waiting s of (waiting', unlinkErr, d) \<Rightarrow>
        (case openPart unzip partFile d of
           (Some e, d1) \<Rightarrow>
             extractParts lag unzip rest waiting' (firstError syncErr (Some e)) (unlinkErr, d1)
         | (None, d1) \<Rightarrow>
             extractParts lag unzip rest (waiting' @ [(lag partFile, segments partFile)]) syncErr
               (unlinkErr, d1)))"

text \<open>
  The callbacks of the second \<^verbatim>\<open>Promise.all\<close>: \<^verbatim>\<open>fs.rename\<close> of one child of the
  folder to the destination, and, for the folder, \<^verbatim>\<open>readdir\<close>, the renames of all
  children, and \<^verbatim>\<open>rmdir\<close> when all of them succeeded.
\<close>

definition moveUp :: "string \<Rightarrow> string \<Rightarrow> dir \<Rightarrow> fs_error option \<times> dir" where
  "moveUp folderName file d =
     (case map_of d folderName of
        Some (Dir contents) \<Rightarrow>
          (case map_of contents file of
             None \<Rightarrow> (Some ENOENT, d)
           | Some child \<Rightarrow>
               (case renameOnto child (map_of d file) of
                  Some e \<Rightarrow> (Some e, d)
                | None \<Rightarrow>
                    (None, AList.update file child
                       (AList.update folderName (Dir (AList.delete file contents)) d))))
      | Some (File c) \<Rightarrow> (Some ENOTDIR, d)
      | None \<Rightarrow> (Some ENOENT, d))"

definition flattenFolder :: "string \<Rightarrow> dir \<Rightarrow> fs_error option \<times> dir" where
  "flattenFolder folderName d =
     (case map_of d folderName of
        None \<Rightarrow> (Some ENOENT, d)
      | Some (File c) \<Rightarrow> (Some ENOTDIR, d)
      | Some (Dir contents) \<Rightarrow>
          (case promiseAll (moveUp folderName) (readdir contents) d of
             (Some e, d1) \<Rightarrow> (Some e, d1)
           | (None, d1) \<Rightarrow> rmdir folderName d1))"

text \<open>
  The two lists \<^verbatim>\<open>extractZip\<close> computes: the entry names of the archive that match
  the part pattern, and the names in the destination that start with \<^verbatim>\<open>Export-\<close>.
\<close>

definition partFiles :: "entries \<Rightarrow> string list" where
  "partFiles zipEntries = filter isPartFile (map fst zipEntries)"

definition exportFolders :: "dir \<Rightarrow> string list" where
  "exportFolders d = filter isExportFolder (readdir d)"

text \<open>
  \<open>extractZipIn\<close> is \<^verbatim>\<open>extractZip\<close> with the timing of its concurrent operations made
  explicit: \<open>lag\<close> for the unlinks of the parts, and, for the export folders, which the
  source starts together, \<open>order\<close>, which arranges the list of folders in the order in
  which their operations reach the file system. \<open>extractZip\<close> is the run in which each
  unlink takes effect at once and the folders are taken in the order of the listing.
\<close>

definition extractZipIn ::
  "(string \<Rightarrow> nat) \<Rightarrow> (string list \<Rightarrow> string list) \<Rightarrow> unzipper \<Rightarrow> string \<Rightarrow> dir \<Rightarrow>
     fs_error option \<times> dir" where
  "extractZipIn lag order unzip bytes destination =
     (case unzip bytes of
        None \<Rightarrow> (Some InvalidZip, destination)
      | Some zipEntries \<Rightarrow>
          (case extractAllTo zipEntries destination of
             (Some e, d1) \<Rightarrow> (Some e, d1)
           | (None, d1) \<Rightarrow>
               (case extractParts lag unzip (partFiles zipEntries) [] None (None, d1) of
                  (Some e, d2) \<Rightarrow> (Some e, d2)
                | (None, d2) \<Rightarrow> promiseAll flattenFolder (order (exportFolders d2)) d2)))"

definition extractZip :: "unzipper \<Rightarrow> string \<Rightarrow> dir \<Rightarrow> fs_error option \<times> dir" where
  "extractZip = extractZipIn (\<lambda>partFile. 0) (\<lambda>folders. folders)"

subsection \<open>Parts that do not interfere\<close>

text \<open>
  The file at a path taken away, and the files at the paths of a list taken away one
  after the other: what successful unlinks do to the destination.
\<close>

fun remove :: "path \<Rightarrow> dir \<Rightarrow> dir" where
  "remove [] d = d"
| "remove [n] d = AList.delete n d"
| "remove (n # p) d =
     (case map_of d n of
        Some (Dir d') \<Rightarrow> AList.update n (Dir (remove p d')) d
      | _ \<Rightarrow> d)"

definition removes :: "path list \<Rightarrow> dir \<Rightarrow> dir" where
  "removes ps d = fold remove ps d"

definition filesAt :: "dir \<Rightarrow> path list \<Rightarrow> bool" where
  "filesAt d ps = list_all (\<lambda>p. case lookup d p of Some (File c) \<Rightarrow> True | _ \<Rightarrow> False) ps"







subsection \<open>Export folders that do not collide\<close>







subsection \<open>Ordinary files\<close>

text \<open>
  A plain name is a single path segment. An archive holds ordinary files when each of
  its entries is a file with a plain name that is neither a part name nor the name of an
  export folder.
\<close>

definition plainName :: "string \<Rightarrow> bool" where
  "plainName name = (name \<noteq> [] \<and> name \<noteq> ''.'' \<and> CHR ''/'' \<notin> set name)"

definition ordinaryFiles :: "entries \<Rightarrow> bool" where
  "ordinaryFiles es =
     list_all (\<lambda>entry. plainName (fst entry) \<and> \<not> isPartFile (fst entry) \<and>
                 \<not> isExportFolder (fst entry)) es"


subsection \<open>A sample archive reader\<close>


section \<open>The whole run\<close>

text \<open>
  The two paths the run owns: the directory \<^verbatim>\<open>workspace\<close> (absent, or a directory)
  and the file \<^verbatim>\<open>workspace.zip\<close> (absent, or its bytes).
\<close>

record world =
  workspaceDir :: "dir option"
  workspaceZip :: "string option"

text \<open>What the service does during one run: its answers to the three kinds of request.\<close>

record service =
  enqueueTask :: "nat option + string"
  getTasks :: "response list"
  getExport :: get

datatype failure =
  EnqueueFailed "nat option"
| PollingFailed exn
| RequestFailed "nat option"
| WriteFailed
| ExtractionFailed fs_error

datatype ending = Completed | Failed failure | Hanging

text \<open>
  \<^verbatim>\<open>exportFromNotion(workspaceZip, "markdown")\<close>: enqueue, poll, download. The file
  is created when the write stream opens it, after the GET request was answered; a
  write stream that cannot open the file (\<open>failsAfter = Some 0\<close>) leaves the path as it
  was.
\<close>

definition exportFromNotion :: "service \<Rightarrow> nat option \<Rightarrow> world \<Rightarrow> ending \<times> world" where
  "exportFromNotion srv failsAfter w =
     (case enqueueTask srv of
        Inl httpStatus \<Rightarrow> (Failed (EnqueueFailed httpStatus), w)
      | Inr taskId \<Rightarrow>
          (case fst (pollPhase taskId initial (getTasks srv)) of
             Raised e \<Rightarrow> (Failed (PollingFailed e), w)
           | Pending \<Rightarrow> (Hanging, w)
           | Obtained url cookie \<Rightarrow>
               (case download (getExport srv) failsAfter of
                  GetFailed httpStatus \<Rightarrow> (Failed (RequestFailed httpStatus), w)
                | Downloaded Rejected written contentLength \<Rightarrow>
                    (Failed WriteFailed,
                     if failsAfter = Some 0 then w else w\<lparr>workspaceZip := Some written\<rparr>)
                | Downloaded Unsettled written contentLength \<Rightarrow>
                    (Hanging, w\<lparr>workspaceZip := Some written\<rparr>)
                | Downloaded Resolved written contentLength \<Rightarrow>
                    (Completed, w\<lparr>workspaceZip := Some written\<rparr>))))"

text \<open>
  \<^verbatim>\<open>run\<close>: the export, \<^verbatim>\<open>fs.rm\<close> and \<^verbatim>\<open>fs.mkdir\<close> of the workspace directory,
  \<^verbatim>\<open>extractZip\<close>, and \<^verbatim>\<open>fs.unlink\<close> of the archive.
\<close>

definition run :: "unzipper \<Rightarrow> service \<Rightarrow> nat option \<Rightarrow> world \<Rightarrow> ending \<times> world" where
  "run unzip srv failsAfter w =
     (case exportFromNotion srv failsAfter w of
        (Completed, w1) \<Rightarrow>
          (let w2 = w1\<lparr>workspaceDir := None\<rparr>;
               w3 = w2\<lparr>workspaceDir := Some []\<rparr>
           in case workspaceZip w3 of
                None \<Rightarrow> (Failed (ExtractionFailed ENOENT), w3)
              | Some bytes \<Rightarrow>
                  (case extractZip unzip bytes [] of
                     (Some e, d) \<Rightarrow> (Failed (ExtractionFailed e), w3\<lparr>workspaceDir := Some d\<rparr>)
                   | (None, d) \<Rightarrow>
                       (Completed, w3\<lparr>workspaceDir := Some d, workspaceZip := None\<rparr>)))
      | (ending, w1) \<Rightarrow> (ending, w1))"



section \<open>Properties of the polling phase\<close>

subsection \<open>Basic facts about one iteration\<close>

lemma pollLoop_at_ceiling:
  "\<not> pollAttempts st < MAX_POLL_ATTEMPTS \<Longrightarrow> pollLoop taskId st rs = (Exited, st)"
  by (cases rs) simp_all

lemma pollAttempts_say [simp]: "pollAttempts (say l st) = pollAttempts st"
  by (simp add: say_def)

lemma rateLimitRetries_say [simp]: "rateLimitRetries (say l st) = rateLimitRetries st"
  by (simp add: say_def)

lemma console_say [simp]: "console (say l st) = console st @ [l]"
  by (simp add: say_def)

lemma pollAttempts_showProgress [simp]: "pollAttempts (showProgress task st) = pollAttempts st"
  by (simp add: showProgress_def split: option.splits)

lemma rateLimitRetries_showProgress [simp]:
  "rateLimitRetries (showProgress task st) = rateLimitRetries st"
  by (simp add: showProgress_def split: option.splits)

lemma pollAttempts_enter [simp]: "pollAttempts (enter st) = Suc (pollAttempts st)"
  by (simp add: enter_def)

lemma rateLimitRetries_enter [simp]: "rateLimitRetries (enter st) = rateLimitRetries st"
  by (simp add: enter_def)

lemma console_enter [simp]: "console (enter st) = console st"
  by (simp add: enter_def)

text \<open>
  A rate-limited request gives its attempt back and adds a strike; a record that is
  neither failed nor successful resets the strikes; a reply without the record leaves
  them as they are.
\<close>

lemma rate_limited_step:
  "\<exists>st'. pollStep taskId (enter st) (AxiosError (Some 429)) = Continue st' \<and>
      pollAttempts st' = pollAttempts st \<and> rateLimitRetries st' = Suc (rateLimitRetries st)"
  by (simp add: onCatch_def)

lemma waiting_record_step:
  assumes "find (\<lambda>t. task_id t = taskId) tasks = Some task"
      and "\<not> truthy (error task)" and "state task \<noteq> ''success''"
  shows "\<exists>st'. pollStep taskId (enter st) (Reply tasks cookies) = Continue st' \<and>
      pollAttempts st' = Suc (pollAttempts st) \<and> rateLimitRetries st' = 0"
  using assms by (simp add: onReply_def Let_def)

lemma not_found_step:
  assumes "find (\<lambda>t. task_id t = taskId) tasks = None"
  shows "\<exists>st'. pollStep taskId (enter st) (Reply tasks cookies) = Continue st' \<and>
      pollAttempts st' = Suc (pollAttempts st) \<and> rateLimitRetries st' = rateLimitRetries st"
  using assms by (simp add: onReply_def)

lemma keepsPolling_step:
  assumes "keepsPolling taskId r"
  shows "\<exists>st'. pollStep taskId (enter st) r = Continue st' \<and>
           pollAttempts st' = pollAttempts st + (if rateLimited r then 0 else 1)"
proof (cases r)
  case (Reply tasks cookies)
  with assms show ?thesis
    by (auto simp: onReply_def rateLimited_def Let_def split: option.splits)
next
  case (AxiosError httpStatus)
  with assms show ?thesis
    by (simp add: onCatch_def rateLimited_def)
qed

text \<open>
  When every reply keeps the loop going and the replies that count as attempts use up the
  budget, the loop is left by its condition, with the counter at the ceiling.
\<close>

lemma loop_runs_out:
  assumes "list_all (keepsPolling taskId) rs"
      and "MAX_POLL_ATTEMPTS \<le> pollAttempts st + length (filter (\<lambda>r. \<not> rateLimited r) rs)"
  shows "fst (pollLoop taskId st rs) = Exited \<and>
         MAX_POLL_ATTEMPTS \<le> pollAttempts (snd (pollLoop taskId st rs))"
  using assms
proof (induction rs arbitrary: st)
  case Nil
  then show ?case by simp
next
  case (Cons r rs)
  show ?case
  proof (cases "pollAttempts st < MAX_POLL_ATTEMPTS")
    case False
    then show ?thesis by simp
  next
    case True
    from Cons.prems(1) have kp: "keepsPolling taskId r"
      and rest: "list_all (keepsPolling taskId) rs"
      by simp_all
    from keepsPolling_step [OF kp, of st] obtain st' where
      st': "pollStep taskId (enter st) r = Continue st'"
      and n: "pollAttempts st' = pollAttempts st + (if rateLimited r then 0 else 1)"
      by blast
    from Cons.prems(2) n
    have "MAX_POLL_ATTEMPTS \<le> pollAttempts st' + length (filter (\<lambda>r. \<not> rateLimited r) rs)"
      by (simp split: if_splits)
    from Cons.IH [OF rest this] True st' show ?thesis by simp
  qed
qed

text \<open>
  A successful record that arrives while at least one more attempt is left: the driver
  hands out the reference and the cookie of that reply when both are there, and fails
  with a protocol error when one is missing.
\<close>

lemma success_before_last_attempt:
  assumes "Suc (pollAttempts st) < MAX_POLL_ATTEMPTS"
      and "find (\<lambda>t. task_id t = taskId) tasks = Some task"
      and "\<not> truthy (error task)" and "state task = ''success''"
  shows "fst (pollPhase taskId st (Reply tasks cookies # rs)) =
     (case status task of
        None \<Rightarrow> Raised ExportURLMissing
      | Some s \<Rightarrow>
          if \<not> truthy (exportURL s) then Raised ExportURLMissing
          else if \<not> truthy (find (\<lambda>cookie. includes_str cookie ''file_token='') cookies)
          then Raised FileTokenMissing
          else Obtained (exportURL s) (find (\<lambda>cookie. includes_str cookie ''file_token='') cookies))"
  using assms
  by (simp add: pollPhase_def afterLoop_def onReply_def onSuccess_def Let_def say_def
      showProgress_def enter_def split: option.splits)

subsection \<open>C1: a successful reply on the last attempt\<close>

text \<open>
  C1 says that at every attempt, the last one allowed by the ceiling included, a reply
  that reports \<^verbatim>\<open>state=success\<close> with a non-empty reference and a token cookie makes
  the driver return the pair. Here the job is in progress for 99 polls and succeeds on
  poll 100: the loop is left by \<^verbatim>\<open>break\<close> with \<^verbatim>\<open>pollAttempts = 100\<close>, and the check
  after the loop raises the timeout. The same reply one poll earlier is returned.
\<close>

theorem success_on_last_attempt_times_out:
  "fst (pollPhase ''t'' initial (replicate 99 (inProgressReply ''t'') @ [successReply ''t'']))
     = Raised (TimedOut 100 5) \<and>
   fst (pollPhase ''t'' initial (replicate 98 (inProgressReply ''t'') @ [successReply ''t'']))
     = Obtained (Some ''https://x/y.zip'') (Some ''file_token=abc; Path=/'')"
  by code_simp

subsection \<open>C2: the strikes after a reply without the record\<close>

text \<open>
  C2 says that a rate-limited response never increments \<^verbatim>\<open>pollAttempts\<close> and that
  every other response resets \<^verbatim>\<open>rateLimitRetries\<close> to 0. After one rate-limited
  request and one reply with \<^verbatim>\<open>results: []\<close> the driver waits for its third reply
  with one attempt used, the strike still there, and 4 + 5 + 5 seconds slept; a record in
  progress in place of the empty reply resets the strikes, and then 4 + 5 + 4 seconds are
  slept.
\<close>

theorem strikes_survive_not_found:
  "pollLoop ''t'' initial [AxiosError (Some 429), Reply [] []] =
     (Awaiting, \<lparr>pollAttempts = 2, rateLimitRetries = 1, exportURLvar = None,
        fileTokenCookie = None, slept = 14,
        console = [LogRateLimited 1, LogNotFound 1 100]\<rparr>) \<and>
   pollLoop ''t'' initial [AxiosError (Some 429), inProgressReply ''t''] =
     (Awaiting, \<lparr>pollAttempts = 2, rateLimitRetries = 0, exportURLvar = None,
        fileTokenCookie = None, slept = 13,
        console = [LogRateLimited 1, LogState 1 100 ''in_progress'', LogProgress 3]\<rparr>)"
  by code_simp

subsection \<open>C3: the error field comes first\<close>

text \<open>
  C3: whenever the record of the job carries a non-empty error field, the driver fails
  at once with a remote failure, whatever the state of the record is (the successful
  state with a reference and a token included), and whatever replies would follow.
\<close>

theorem error_field_raises_remote_failure:
  assumes "pollAttempts st < MAX_POLL_ATTEMPTS"
      and "find (\<lambda>t. task_id t = taskId) tasks = Some task"
      and "error task = Some reason" and "reason \<noteq> []"
  shows "fst (pollPhase taskId st (Reply tasks cookies # rs)) = Raised (ExportFailed reason) \<and>
         kind (ExportFailed reason) = RemoteFailure \<and>
         exportURLvar (snd (pollPhase taskId st (Reply tasks cookies # rs))) = exportURLvar st"
  using assms
  by (simp add: pollPhase_def afterLoop_def onReply_def Let_def say_def showProgress_def
      enter_def split: option.splits)

theorem error_field_raises_remote_failure_witness:
  "fst (pollPhase ''t'' initial (failedSuccessReply ''t'' # [successReply ''t'']))
     = Raised (ExportFailed ''quota'') \<and>
   kind (ExportFailed ''quota'') = RemoteFailure \<and>
   exportURLvar (snd (pollPhase ''t'' initial (failedSuccessReply ''t'' # [successReply ''t''])))
     = exportURLvar initial"
  using error_field_raises_remote_failure [of initial "''t''"
      "[\<lparr>task_id = ''t'', state = ''success'',
          status = Some \<lparr>pagesExported = Some 3, exportURL = Some ''https://x/y.zip''\<rparr>,
          error = Some ''quota''\<rparr>]"
      "\<lparr>task_id = ''t'', state = ''success'',
          status = Some \<lparr>pagesExported = Some 3, exportURL = Some ''https://x/y.zip''\<rparr>,
          error = Some ''quota''\<rparr>"
      "''quota''" "[''file_token=abc; Path=/'']" "[successReply ''t'']"]
  by (simp add: failedSuccessReply_def initial_def MAX_POLL_ATTEMPTS_def)

subsection \<open>C4: the timeout and what its message reports\<close>

text \<open>
  C4 as stated says that the timeout reports the wall-clock time the polling took. The
  message interpolates \<^verbatim>\<open>MAX_POLL_ATTEMPTS\<close> and
  \<^verbatim>\<open>MAX_POLL_ATTEMPTS * POLL_INTERVAL / 60\<close>, two constants: a run of 100 empty replies
  sleeps 400 seconds, the same run after one rate-limited request sleeps 504 seconds, and
  both report 5 minutes.
\<close>

theorem timeout_reports_constant_counterexample:
  "fst (pollPhase ''t'' initial (replicate 100 (Reply [] []))) = Raised (TimedOut 100 5) \<and>
   slept (snd (pollPhase ''t'' initial (replicate 100 (Reply [] [])))) = 400 \<and>
   fst (pollPhase ''t'' initial (AxiosError (Some 429) # replicate 100 (Reply [] [])))
     = Raised (TimedOut 100 5) \<and>
   slept (snd (pollPhase ''t'' initial (AxiosError (Some 429) # replicate 100 (Reply [] []))))
     = 504"
  by code_simp

text \<open>
  C4 as amended: when the attempts reach the ceiling while every reply kept the loop
  going, the driver raises the timeout, and the message reports the ceiling of 100
  attempts and the nominal 5 minutes, whatever time was spent.
\<close>

theorem timeout_at_ceiling:
  assumes "list_all (keepsPolling taskId) rs"
      and "MAX_POLL_ATTEMPTS \<le> pollAttempts st + length (filter (\<lambda>r. \<not> rateLimited r) rs)"
  shows "fst (pollPhase taskId st rs) = Raised (TimedOut 100 5) \<and>
         kind (TimedOut 100 5) = Timeout"
proof -
  from loop_runs_out [OF assms]
  obtain st' where "pollLoop taskId st rs = (Exited, st')"
    and "MAX_POLL_ATTEMPTS \<le> pollAttempts st'"
    by (cases "pollLoop taskId st rs") auto
  then show ?thesis
    by (simp add: pollPhase_def afterLoop_def MAX_POLL_ATTEMPTS_def POLL_INTERVAL_def)
qed

theorem timeout_at_ceiling_witness:
  "list_all (keepsPolling ''t'')
     [inProgressReply ''t'', AxiosError (Some 429), Reply [] []] \<and>
   MAX_POLL_ATTEMPTS \<le> pollAttempts (initial\<lparr>pollAttempts := 98\<rparr>) +
     length (filter (\<lambda>r. \<not> rateLimited r)
       [inProgressReply ''t'', AxiosError (Some 429), Reply [] []]) \<and>
   fst (pollPhase ''t'' (initial\<lparr>pollAttempts := 98\<rparr>)
     [inProgressReply ''t'', AxiosError (Some 429), Reply [] []]) = Raised (TimedOut 100 5) \<and>
   kind (TimedOut 100 5) = Timeout"
proof -
  have h1: "list_all (keepsPolling ''t'')
     [inProgressReply ''t'', AxiosError (Some 429), Reply [] []]"
    by (simp add: inProgressReply_def)
  have h2: "MAX_POLL_ATTEMPTS \<le> pollAttempts (initial\<lparr>pollAttempts := 98\<rparr>) +
     length (filter (\<lambda>r. \<not> rateLimited r)
       [inProgressReply ''t'', AxiosError (Some 429), Reply [] []])"
    by (simp add: inProgressReply_def rateLimited_def MAX_POLL_ATTEMPTS_def)
  from timeout_at_ceiling [OF h1 h2] h1 h2 show ?thesis by simp
qed

subsection \<open>C5: a reply without the record\<close>



section \<open>Properties of the download\<close>

text \<open>
  What \<^verbatim>\<open>pipe\<close> and the promise give for a write stream that never fails, and for
  one that fails after \<open>k\<close> chunks.
\<close>

lemma leading_body: "leading evs = length (body evs)"
  by (induction evs rule: leading.induct) simp_all

lemma received_body: "received evs = length (concat (body evs))"
  by (induction evs rule: received.induct) simp_all

lemma pipe_never_fails:
  "pipe evs None written =
     (if ends evs then Resolved else Unsettled, written @ concat (body evs))"
  by (induction evs arbitrary: written rule: body.induct) simp_all

lemma pipe_fails:
  "pipe evs (Some k) written =
     (if k \<le> leading evs then Rejected else if ends evs then Resolved else Unsettled,
      written @ concat (take k (body evs)))"
proof (induction evs arbitrary: k written rule: body.induct)
  case 1
  show ?case by (cases k) simp_all
next
  case (2 c evs)
  show ?case
  proof (cases k)
    case 0
    then show ?thesis by simp
  next
    case (Suc j)
    with 2 [of j "written @ c"] show ?thesis by simp
  qed
next
  case (3 evs)
  show ?case by (cases k) simp_all
next
  case (4 evs)
  show ?case by (cases k) simp_all
qed

subsection \<open>C8: a body that stops short of the declared length\<close>

text \<open>
  C8 as stated says that a download whose body stops before \<^verbatim>\<open>content-length\<close> bytes
  have arrived raises an error. The declared length is 10, 4 bytes arrive and the body
  stream is torn down: the write stream is neither ended nor failed, so the promise is
  never settled. No error is raised, and the 4 bytes stay in the file.
\<close>

theorem short_body_counterexample:
  "received [Chunk ''abcd'', Aborted] = 4 \<and>
   download (GetResponse 10 [Chunk ''abcd'', Aborted]) None = Downloaded Unsettled ''abcd'' 10"
  by simp

text \<open>
  C8 as amended: a rejected GET request is raised as it is. Once the request is
  answered, the download is rejected exactly when the write stream fails no later than
  after the last chunk that the body stream delivers; otherwise it completes when the
  body stream emits \<^verbatim>\<open>end\<close> and stays unsettled when it does not. The file holds the
  chunks written up to there. The declared \<^verbatim>\<open>content-length\<close> is handed on to the log
  line and decides nothing.
\<close>

theorem download_settles:
  "download (GetRejected httpStatus) failsAfter = GetFailed httpStatus \<and>
   download (GetResponse contentLength evs) failsAfter =
     Downloaded
       (if (\<exists>k. failsAfter = Some k \<and> k \<le> leading evs) then Rejected
        else if ends evs then Resolved else Unsettled)
       (concat (case failsAfter of None \<Rightarrow> body evs | Some k \<Rightarrow> take k (body evs)))
       contentLength"
proof (cases failsAfter)
  case None
  then show ?thesis by (simp add: pipe_never_fails)
next
  case (Some k)
  then show ?thesis by (simp add: pipe_fails)
qed

section \<open>Properties of the archive normalizer\<close>

subsection \<open>The naming conventions as sets of names\<close>

text \<open>
  The matcher of the part pattern accepts exactly the names that contain \<^verbatim>\<open>Part-\<close>, one
  or more digits and \<^verbatim>\<open>.zip\<close> somewhere; an export folder is any name that begins
  with \<^verbatim>\<open>Export-\<close>.
\<close>

lemma matchHere_iff:
  "matchHere s \<longleftrightarrow>
     (\<exists>ds post. s = ''Part-'' @ ds @ ''.zip'' @ post \<and> ds \<noteq> [] \<and> (\<forall>c\<in>set ds. isDigit c))"
proof
  assume m: "matchHere s"
  from m have "prefix ''Part-'' s" by (simp add: matchHere_def)
  then obtain r where s: "s = ''Part-'' @ r"
    unfolding prefix_def by blast
  have d5: "drop 5 s = r" unfolding s by simp
  from m have z: "prefix ''.zip'' (dropWhile isDigit r)" and ne: "takeWhile isDigit r \<noteq> []"
    unfolding matchHere_def d5 by blast+
  from z obtain post where post: "dropWhile isDigit r = ''.zip'' @ post"
    unfolding prefix_def by blast
  have "s = ''Part-'' @ (takeWhile isDigit r @ dropWhile isDigit r)"
    unfolding s by (simp only: takeWhile_dropWhile_id)
  then have eq: "s = ''Part-'' @ takeWhile isDigit r @ ''.zip'' @ post"
    unfolding post .
  have dg: "\<forall>c\<in>set (takeWhile isDigit r). isDigit c"
    by (auto dest: set_takeWhileD)
  show "\<exists>ds post. s = ''Part-'' @ ds @ ''.zip'' @ post \<and> ds \<noteq> [] \<and> (\<forall>c\<in>set ds. isDigit c)"
  proof (intro exI conjI)
    show "s = ''Part-'' @ takeWhile isDigit r @ ''.zip'' @ post" by (fact eq)
    show "takeWhile isDigit r \<noteq> []" by (fact ne)
    show "\<forall>c\<in>set (takeWhile isDigit r). isDigit c" by (fact dg)
  qed
next
  assume "\<exists>ds post. s = ''Part-'' @ ds @ ''.zip'' @ post \<and> ds \<noteq> [] \<and> (\<forall>c\<in>set ds. isDigit c)"
  then obtain ds post where s: "s = ''Part-'' @ ds @ ''.zip'' @ post"
    and ne: "ds \<noteq> []" and dg: "\<forall>c\<in>set ds. isDigit c"
    by blast
  have nd: "\<not> isDigit CHR ''.''" by (simp add: isDigit_def)
  have tw: "takeWhile isDigit (ds @ ''.zip'' @ post) = ds"
    using dg nd by simp
  have dw: "dropWhile isDigit (ds @ ''.zip'' @ post) = ''.zip'' @ post"
    using dg nd by simp
  have dr: "drop 5 s = ds @ ''.zip'' @ post" unfolding s by simp
  have p1: "prefix ''Part-'' s" unfolding s by (rule prefixI) simp
  have p2: "prefix ''.zip'' (''.zip'' @ post)" by (rule prefixI) simp
  show "matchHere s"
    unfolding matchHere_def dr tw dw using ne p1 p2 by blast
qed

lemma isPartFile_decompose:
  "isPartFile name \<longleftrightarrow> (\<exists>pre s. name = pre @ s \<and> matchHere s)"
proof (induction name)
  case Nil
  then show ?case by (simp add: matchHere_def)
next
  case (Cons c cs)
  show ?case
  proof
    assume "isPartFile (c # cs)"
    then consider "matchHere (c # cs)" | "isPartFile cs" by auto
    then show "\<exists>pre s. c # cs = pre @ s \<and> matchHere s"
    proof cases
      case 1
      then have "c # cs = [] @ (c # cs) \<and> matchHere (c # cs)" by simp
      then show ?thesis by blast
    next
      case 2
      with Cons.IH obtain pre s where "cs = pre @ s" "matchHere s" by blast
      then have "c # cs = (c # pre) @ s \<and> matchHere s" by simp
      then show ?thesis by blast
    qed
  next
    assume "\<exists>pre s. c # cs = pre @ s \<and> matchHere s"
    then obtain pre s where eq: "c # cs = pre @ s" and m: "matchHere s" by blast
    show "isPartFile (c # cs)"
    proof (cases pre)
      case Nil
      with eq have "s = c # cs" by simp
      with m show ?thesis by simp
    next
      case (Cons p ps)
      with eq have "cs = ps @ s" by simp
      with m Cons.IH have "isPartFile cs" by blast
      then show ?thesis by simp
    qed
  qed
qed

lemma isPartFile_iff:
  "isPartFile name \<longleftrightarrow>
     (\<exists>pre ds post. name = pre @ ''Part-'' @ ds @ ''.zip'' @ post \<and> ds \<noteq> [] \<and>
        (\<forall>c\<in>set ds. isDigit c))"
  unfolding isPartFile_decompose matchHere_iff by blast

lemma isExportFolder_iff:
  "isExportFolder name \<longleftrightarrow> (\<exists>rest. name = ''Export-'' @ rest)"
  by (simp add: isExportFolder_def startsWith_def prefix_def)


section \<open>Properties of the file system model\<close>

subsection \<open>Taking a file away commutes with extraction elsewhere\<close>



lemma lookup_remove_self: "lookup d p = Some (File c) \<Longrightarrow> lookup (remove p d) p = None"
proof (induction p d rule: remove.induct)
  case (3 n m p d)
  then show ?case by (auto simp: update_conv' delete_conv' split: option.splits node.splits)
qed (simp_all add: delete_conv')



















lemma removes_simps [simp]:
  "removes [] d = d"
  "removes (p # ps) d = removes ps (remove p d)"
  "removes (ps @ qs) d = removes qs (removes ps d)"
  by (simp_all add: removes_def)

lemma filesAt_iff: "filesAt d ps \<longleftrightarrow> (\<forall>p\<in>set ps. \<exists>c. lookup d p = Some (File c))"
  by (induction ps) (auto simp: filesAt_def split: option.splits node.splits)










subsection \<open>The unlinks of independent parts can be put off to the end\<close>













text \<open>
  With independent parts, whatever the time at which the unlinks take effect, the
  first \<^verbatim>\<open>Promise.all\<close> gives the error of the synchronous parts and the destination
  in which all parts were extracted, less the files of the parts that were opened.
\<close>

lemma firstError_None [simp]: "firstError e None = e"
  by (cases e) simp_all


lemma filesAt_subset: "set ps \<subseteq> set qs \<Longrightarrow> filesAt d qs \<Longrightarrow> filesAt d ps"
  by (auto simp: filesAt_iff)





subsection \<open>Paths and file system calls\<close>

lemma splitOn_absent: "c \<notin> set xs \<Longrightarrow> splitOn c xs = [xs]"
  by (induction xs) auto

lemma segments_plain: "plainName name \<Longrightarrow> segments name = [name]"
  by (simp add: plainName_def segments_def splitOn_absent)

lemma isDirectory_plain: "plainName name \<Longrightarrow> \<not> isDirectory name"
proof
  assume p: "plainName name" and "isDirectory name"
  then have "name \<noteq> []" and "last name = CHR ''/''"
    by (simp_all add: isDirectory_def)
  then have "CHR ''/'' \<in> set name"
    using last_in_set [of name] by simp
  with p show False by (simp add: plainName_def)
qed

lemma unlink_removes: "unlink p d = Inr d' \<Longrightarrow> lookup d' p = None"
proof (induction p d arbitrary: d' rule: unlink.induct)
  case (1 d)
  then show ?case by simp
next
  case (2 n d)
  then show ?case
    by (auto simp: AList.delete_conv' split: option.splits node.splits)
next
  case (3 n v va d)
  then show ?case
    by (auto simp: AList.update_conv' split: option.splits node.splits sum.splits)
qed

lemma filter_only:
  assumes "distinct xs" and "a \<in> set xs" and "\<And>x. x \<in> set xs \<Longrightarrow> P x \<longleftrightarrow> x = a"
  shows "filter P xs = [a]"
  using assms
proof (induction xs)
  case Nil
  then show ?case by simp
next
  case (Cons x xs)
  show ?case
  proof (cases "x = a")
    case True
    with Cons.prems have "\<And>y. y \<in> set xs \<Longrightarrow> \<not> P y" by auto
    then have "filter P xs = []" by (simp add: filter_empty_conv)
    with True Cons.prems show ?thesis by simp
  next
    case False
    with Cons.prems have "\<not> P x" and "a \<in> set xs" and "distinct xs" by auto
    with Cons show ?thesis by simp
  qed
qed


text \<open>
  Extracting ordinary files into a directory that has no directory under any of their
  names succeeds, and leaves each name with the data of its last entry.
\<close>

lemma extract_ordinary:
  assumes "list_all (\<lambda>entry. plainName (fst entry)) es"
      and "\<And>name x. name \<in> fst ` set es \<Longrightarrow> map_of d name \<noteq> Some (Dir x)"
  shows "\<exists>d'. extractAllTo es d = (None, d') \<and>
           (\<forall>name. map_of d' name =
              (case map_of (rev es) name of Some data \<Rightarrow> Some (File data) | None \<Rightarrow> map_of d name)) \<and>
           (distinct (map fst d) \<longrightarrow> distinct (map fst d'))"
  using assms
proof (induction es arbitrary: d)
  case Nil
  then show ?case by simp
next
  case (Cons entry es)
  obtain name data where entry: "entry = (name, data)" by (cases entry)
  from Cons.prems(1) entry have pl: "plainName name"
    and rest: "list_all (\<lambda>entry. plainName (fst entry)) es"
    by simp_all
  from Cons.prems(2) [of name] entry have nodir: "\<And>x. map_of d name \<noteq> Some (Dir x)"
    by simp
  define d1 where "d1 = AList.update name (File data) d"
  have w: "writeFileTo [name] data d = Inr d1"
    using nodir by (auto simp: d1_def split: option.splits node.splits)
  have step: "extractEntry entry d = Inr d1"
    using pl w by (simp add: extractEntry_def entry segments_plain isDirectory_plain)
  have m1: "\<And>n. map_of d1 n = (if n = name then Some (File data) else map_of d n)"
    by (simp add: d1_def AList.update_conv')
  have nodir1: "\<And>n x. n \<in> fst ` set es \<Longrightarrow> map_of d1 n \<noteq> Some (Dir x)"
    using Cons.prems(2) by (auto simp: m1)
  from Cons.IH [OF rest nodir1] obtain d' where
    run: "extractAllTo es d1 = (None, d')"
    and m': "\<forall>n. map_of d' n =
              (case map_of (rev es) n of Some data \<Rightarrow> Some (File data) | None \<Rightarrow> map_of d1 n)"
    and dist: "distinct (map fst d1) \<longrightarrow> distinct (map fst d')"
    by blast
  have "extractAllTo (entry # es) d = (None, d')"
    using step run by simp
  moreover have "\<forall>n. map_of d' n =
              (case map_of (rev (entry # es)) n of Some data \<Rightarrow> Some (File data)
               | None \<Rightarrow> map_of d n)"
    using m' by (auto simp: m1 entry map_add_def split: option.splits)
  moreover have "distinct (map fst d) \<longrightarrow> distinct (map fst d')"
    using dist by (simp add: d1_def AList.distinct_update)
  ultimately show ?case by blast
qed






text \<open>
  A part that was processed: the file was there, it was read as an archive, the archive
  was extracted, and the file is gone.
\<close>

subsection \<open>Order of the export folders\<close>
















subsection \<open>C7: two runs on the same archive\<close>




section \<open>Properties of the whole run\<close>

subsection \<open>C9: the destination after a failed run\<close>





end
